theory Spec2Isabelle
  imports Main "HOL-Library.Char_ord" "HOL-Library.List_Lexorder"
begin

section \<open>Python values used by the application\<close>

text \<open>
  The application is one Flask module, \<open>app/__init__.py\<close>. Its own code is a module-level
  constant \<open>PORT\<close>, three view functions (\<open>health\<close>, \<open>info\<close>, \<open>hello\<close>) and two error
  handlers (\<open>not_found\<close>, \<open>internal_error\<close>). Everything else is the Python runtime and
  the Flask/Werkzeug framework; the parts of them that the module relies on are written
  out below as functions, so that each call of the source is a call of the model.

  Strings are \<open>string\<close>, a \<open>char\<close> standing for the code point of its number (so the
  strings of the model are Python's strings over the code points below 256); the
  environment \<open>os.environ\<close> is a map from names to values.
\<close>

type_synonym environ = "string \<rightharpoonup> string"

datatype py_error = ValueError

subsection \<open>\<open>int(str)\<close>\<close>

text \<open>
  \<open>int(s)\<close> for a string \<open>s\<close>, base ten: surrounding whitespace is dropped, one sign may
  lead, and the rest must be decimal digits, where a single underscore may stand between
  two digits. Anything else raises \<open>ValueError\<close>.

  The whitespace that \<open>int\<close> drops is tab, line feed, vertical tab, form feed, carriage
  return and space, and, of the code points from 128 on, U+0085 and U+00A0. The
  separators U+001C to U+001F are not dropped. The only decimal digits below 256 are
  \<open>0\<close> to \<open>9\<close>.
\<close>

definition is_space :: "char \<Rightarrow> bool" where
  "is_space c = (c \<in> set [CHR 0x09, CHR 0x0A, CHR 0x0B, CHR 0x0C, CHR 0x0D, CHR '' '',
                           CHR 0x85, CHR 0xA0])"

definition is_digit :: "char \<Rightarrow> bool" where
  "is_digit c = (c \<in> set ''0123456789'')"

definition digit_val :: "char \<Rightarrow> nat" where
  "digit_val c = of_char c - 48"

definition strip :: "string \<Rightarrow> string" where
  "strip s = rev (dropWhile is_space (rev (dropWhile is_space s)))"

text \<open>
  \<open>scan prev n cs\<close> reads the digits \<open>cs\<close> into the accumulator \<open>n\<close>; \<open>prev\<close> says that
  the character just read was a digit, which is what an underscore and the end of the
  string both need.
\<close>

fun scan :: "bool \<Rightarrow> nat \<Rightarrow> string \<Rightarrow> nat option" where
  "scan prev n [] = (if prev then Some n else None)"
| "scan prev n (c # cs) =
     (if is_digit c then scan True (10 * n + digit_val c) cs
      else if c = CHR ''_'' \<and> prev then scan False n cs
      else None)"

text \<open>
  The interpreter limits the number of digits of a numeral that \<open>int\<close> converts
  (\<open>sys.get_int_max_str_digits()\<close>: 4300 unless configured otherwise, 0 for no limit, as
  in the interpreters that have no such setting). Numerals of up to 640 digits are never
  refused; leading zeros count, underscores do not.
\<close>

definition over_cap :: "nat \<Rightarrow> nat \<Rightarrow> bool" where
  "over_cap max_str_digits digits =
     (640 < digits \<and> 0 < max_str_digits \<and> max_str_digits < digits)"

definition parse_digits :: "nat \<Rightarrow> string \<Rightarrow> py_error + nat" where
  "parse_digits max_str_digits cs =
     (case scan False 0 cs of
        None \<Rightarrow> Inl ValueError
      | Some n \<Rightarrow>
          if over_cap max_str_digits (length (filter is_digit cs)) then Inl ValueError
          else Inr n)"

definition py_int :: "nat \<Rightarrow> string \<Rightarrow> py_error + int" where
  "py_int max_str_digits s =
     (case strip s of
        [] \<Rightarrow> Inl ValueError
      | c # cs \<Rightarrow>
          if c = CHR ''-'' then
            (case parse_digits max_str_digits cs of Inl e \<Rightarrow> Inl e | Inr n \<Rightarrow> Inr (- int n))
          else if c = CHR ''+'' then
            (case parse_digits max_str_digits cs of Inl e \<Rightarrow> Inl e | Inr n \<Rightarrow> Inr (int n))
          else
            (case parse_digits max_str_digits (c # cs) of Inl e \<Rightarrow> Inl e | Inr n \<Rightarrow> Inr (int n)))"

subsection \<open>Module start: \<open>PORT\<close>\<close>

text \<open>
  \<^verbatim>\<open>PORT = int(os.environ.get('PORT', 3000))\<close>

  \<open>os.environ.get('PORT', 3000)\<close> is the value of the variable when it is set and the
  integer 3000 otherwise; \<open>int\<close> of the integer 3000 is 3000, \<open>int\<close> of a string parses
  it. The statement runs when the module is imported, so a \<open>ValueError\<close> here ends the
  start of the process. The first argument is the interpreter's digit limit.
\<close>

definition PORT :: "nat \<Rightarrow> environ \<Rightarrow> py_error + int" where
  "PORT max_str_digits env =
     (case env ''PORT'' of None \<Rightarrow> Inr 3000 | Some v \<Rightarrow> py_int max_str_digits v)"

text \<open>
  The module-level state of the running process is the constant \<open>PORT\<close>; no view
  function or error handler assigns to a global.
\<close>

record process =
  port :: int

definition start :: "nat \<Rightarrow> environ \<Rightarrow> py_error + process" where
  "start max_str_digits env =
     (case PORT max_str_digits env of Inl e \<Rightarrow> Inl e | Inr n \<Rightarrow> Inr \<lparr>port = n\<rparr>)"

subsection \<open>\<open>datetime\<close> and \<open>isoformat\<close>\<close>

text \<open>
  A naive \<open>datetime\<close> object, as \<open>datetime.utcnow()\<close> returns it. The object's type
  admits exactly the field values of \<open>valid_datetime\<close>.
\<close>

record datetime =
  year :: nat
  month :: nat
  day :: nat
  hour :: nat
  minute :: nat
  second :: nat
  microsecond :: nat

definition is_leap :: "nat \<Rightarrow> bool" where
  "is_leap y = (y mod 4 = 0 \<and> (y mod 100 \<noteq> 0 \<or> y mod 400 = 0))"

definition days_in_month :: "nat \<Rightarrow> nat \<Rightarrow> nat" where
  "days_in_month y m =
     (if m = 2 then (if is_leap y then 29 else 28)
      else if m \<in> set [4, 6, 9, 11] then 30 else 31)"

definition valid_datetime :: "datetime \<Rightarrow> bool" where
  "valid_datetime d =
     (1 \<le> year d \<and> year d \<le> 9999 \<and> 1 \<le> month d \<and> month d \<le> 12 \<and>
      1 \<le> day d \<and> day d \<le> days_in_month (year d) (month d) \<and>
      hour d < 24 \<and> minute d < 60 \<and> second d < 60 \<and> microsecond d < 1000000)"

text \<open>Python orders naive datetimes field by field, the year first.\<close>

definition dt_key :: "datetime \<Rightarrow> nat list" where
  "dt_key d = [year d, month d, day d, hour d, minute d, second d, microsecond d]"

definition dt_le :: "datetime \<Rightarrow> datetime \<Rightarrow> bool" where
  "dt_le a b = (dt_key a \<le> dt_key b)"

text \<open>
  \<open>zpad k n\<close> is the C format \<open>%0kd\<close>: the decimal digits of \<open>n\<close>, with zeros in front
  up to the width \<open>k\<close>.
\<close>

definition digit_char :: "nat \<Rightarrow> char" where
  "digit_char n = char_of (48 + n)"

fun decimal :: "nat \<Rightarrow> string" where
  "decimal n = (if n < 10 then [digit_char n] else decimal (n div 10) @ [digit_char (n mod 10)])"

declare decimal.simps [simp del]

definition zpad :: "nat \<Rightarrow> nat \<Rightarrow> string" where
  "zpad k n = replicate (k - length (decimal n)) (CHR ''0'') @ decimal n"

text \<open>
  \<open>datetime.isoformat()\<close> with its default arguments: \<open>YYYY-MM-DDTHH:MM:SS\<close>, followed by
  \<open>.ffffff\<close> when the microsecond field is not zero.
\<close>

definition fraction :: "nat \<Rightarrow> string" where
  "fraction us = (if us = 0 then [] else ''.'' @ zpad 6 us)"

definition isoformat :: "datetime \<Rightarrow> string" where
  "isoformat d =
     zpad 4 (year d) @ ''-'' @ zpad 2 (month d) @ ''-'' @ zpad 2 (day d) @ ''T'' @
     zpad 2 (hour d) @ '':'' @ zpad 2 (minute d) @ '':'' @ zpad 2 (second d) @
     fraction (microsecond d)"

text \<open>
  The two ISO-8601 shapes of a date and time without offset that are in question: in a
  pattern, \<open>D\<close> stands for a decimal digit and every other character for itself.
\<close>

fun matches :: "string \<Rightarrow> string \<Rightarrow> bool" where
  "matches [] [] = True"
| "matches (p # ps) (c # cs) = ((if p = CHR ''D'' then is_digit c else c = p) \<and> matches ps cs)"
| "matches _ _ = False"

definition is_iso8601 :: "string \<Rightarrow> bool" where
  "is_iso8601 s =
     (matches ''DDDD-DD-DDTDD:DD:DD'' s \<or> matches ''DDDD-DD-DDTDD:DD:DD.DDDDDD'' s)"

section \<open>Requests and responses\<close>

text \<open>
  A request as the handlers see it: \<open>request.method\<close> (upper case; the field
  \<open>req_method\<close>), \<open>request.path\<close> and
  \<open>request.args\<close>, the decoded query parameters in the order of the query string. A key
  may occur several times, so \<open>args\<close> is a list of pairs.
\<close>

record request =
  req_method :: string
  path :: string
  args :: "(string \<times> string) list"

text \<open>
  The body of a response is either the JSON object that \<open>jsonify\<close> made of a \<open>dict\<close>
  (the entries in the order of the source's literal), or one of the framework's own HTML
  pages (named by its title), or plain bytes.
\<close>

datatype jvalue = JStr string | JInt int

type_synonym jobject = "(string \<times> jvalue) list"

datatype body = Json jobject | Html string | Bytes string

record response =
  status_code :: nat
  data :: body

definition jsonify :: "jobject \<Rightarrow> body" where
  "jsonify obj = Json obj"

definition is_json :: "body \<Rightarrow> bool" where
  "is_json b = (case b of Json obj \<Rightarrow> distinct (map fst obj) | _ \<Rightarrow> False)"

text \<open>\<open>response.get_json()[k]\<close>, as the tests read a field of a body.\<close>

definition json_field :: "response \<Rightarrow> string \<Rightarrow> jvalue option" where
  "json_field resp k = (case data resp of Json obj \<Rightarrow> map_of obj k | _ \<Rightarrow> None)"

text \<open>\<open>request.args.get(key, default)\<close>: the first value of the key, or the default.\<close>

definition args_get :: "(string \<times> string) list \<Rightarrow> string \<Rightarrow> string \<Rightarrow> string" where
  "args_get a k dflt = (case map_of a k of None \<Rightarrow> dflt | Some v \<Rightarrow> v)"
text \<open>
  The exception objects that occur: a fault raised in a view function (any exception
  that is not an HTTP error, with its message), Werkzeug's \<open>NotFound\<close>, and Werkzeug's
  \<open>InternalServerError\<close>, which carries the fault it was made for in
  \<open>original_exception\<close>. \<open>str\<close> of an HTTP error is its code, name and fixed description;
  \<open>str\<close> of another exception is its message.
\<close>

datatype py_exception =
    Exception string
  | NotFound
  | InternalServerError "py_exception option"

fun str :: "py_exception \<Rightarrow> string" where
  "str (Exception s) = s"
| "str NotFound =
     ''404 Not Found: The requested URL was not found on the server. If you entered the URL manually please check your spelling and try again.''"
| "str (InternalServerError original_exception) =
     ''500 Internal Server Error: The server encountered an internal error and was unable to complete your request. Either the server is overloaded or there is an error in the application.''"

text \<open>Truth value of \<open>os.environ.get(name)\<close>: \<open>None\<close> and the empty string are false.\<close>

definition truthy :: "string option \<Rightarrow> bool" where
  "truthy v = (case v of None \<Rightarrow> False | Some s \<Rightarrow> s \<noteq> [])"

section \<open>The view functions and error handlers\<close>

text \<open>
  Each function takes what its body reads: \<open>health\<close> the clock, \<open>hello\<close> and \<open>not_found\<close>
  the request, \<open>internal_error\<close> the environment and its argument, \<open>info\<close> nothing.
\<close>

definition health :: "datetime \<Rightarrow> response" where
  "health utcnow =
     \<lparr>status_code = 200,
      data = jsonify [(''status'', JStr ''OK''),
                      (''timestamp'', JStr (isoformat utcnow)),
                      (''status_code'', JInt 200)]\<rparr>"

definition info :: response where
  "info =
     \<lparr>status_code = 200,
      data = jsonify [(''name'', JStr ''Simple Python Example''),
                      (''version'', JStr ''1.0.0''),
                      (''description'', JStr ''Example project for CI/CD Toolkit''),
                      (''language'', JStr ''Python'')]\<rparr>"

definition hello :: "request \<Rightarrow> response" where
  "hello req =
     (let name = args_get (args req) ''name'' ''World''
      in \<lparr>status_code = 200,
          data = jsonify [(''message'', JStr (''Hello, '' @ name @ ''!''))]\<rparr>)"

definition not_found :: "request \<Rightarrow> py_exception \<Rightarrow> response" where
  "not_found req error =
     \<lparr>status_code = 404,
      data = jsonify [(''error'', JStr ''Not Found''), (''path'', JStr (path req))]\<rparr>"

definition internal_error :: "environ \<Rightarrow> py_exception \<Rightarrow> response" where
  "internal_error env error =
     \<lparr>status_code = 500,
      data = jsonify [(''error'', JStr ''Internal Server Error''),
                      (''message'', JStr (if truthy (env ''DEBUG'') then str error
                                          else ''An error occurred''))]\<rparr>"

section \<open>Routing: what Flask does with the registered rules\<close>

text \<open>
  \<open>Flask(__name__)\<close> registers the rule \<open>/static/<path:filename>\<close> for its static folder;
  the three \<open>@app.route(..., methods=['GET'])\<close> decorators add \<open>/health\<close>, \<open>/api/info\<close>
  and \<open>/api/hello\<close>. A rule registered for \<open>GET\<close> also answers \<open>HEAD\<close>, and every rule
  answers \<open>OPTIONS\<close>.
\<close>

datatype endpoint = Static string | Health | Info | Hello

definition rule_methods :: "string list \<Rightarrow> string list" where
  "rule_methods ms = ms @ (if ''GET'' \<in> set ms then [''HEAD''] else []) @ [''OPTIONS'']"

text \<open>
  The \<open>path\<close> converter takes the rest of the path, slashes included, when that rest is
  not empty and does not begin with a slash.
\<close>

definition static_rule :: "string \<Rightarrow> string option" where
  "static_rule p =
     (if take 8 p = ''/static/'' then
        (case drop 8 p of [] \<Rightarrow> None | c # cs \<Rightarrow> if c = CHR ''/'' then None else Some (c # cs))
      else None)"

definition match_rule :: "string \<Rightarrow> endpoint option" where
  "match_rule p =
     (if p = ''/health'' then Some Health
      else if p = ''/api/info'' then Some Info
      else if p = ''/api/hello'' then Some Hello
      else map_option Static (static_rule p))"

text \<open>
  When no rule matches, the router merges every run of slashes into one slash and tries
  once more; a match of the merged path is answered by a redirect to it.
\<close>

fun merge_slashes :: "string \<Rightarrow> string" where
  "merge_slashes (a # b # cs) =
     (if a = CHR ''/'' \<and> b = CHR ''/'' then merge_slashes (b # cs)
      else a # merge_slashes (b # cs))"
| "merge_slashes cs = cs"

text \<open>The framework's own responses, for which the module registers no handler.\<close>

definition method_not_allowed :: response where
  "method_not_allowed = \<lparr>status_code = 405, data = Html ''405 Method Not Allowed''\<rparr>"

definition request_redirect :: response where
  "request_redirect = \<lparr>status_code = 308, data = Html ''Redirecting...''\<rparr>"

definition default_options_response :: response where
  "default_options_response = \<lparr>status_code = 200, data = Bytes []\<rparr>"

text \<open>
  What a request is handled in: the clock; the environment at that moment; the static
  folder, given as the framework's \<open>send_static_file\<close> (\<open>None\<close> when it raises
  \<open>NotFound\<close>, which is its answer for every name as long as the application has no
  static files, as in the repository); and whether the application hands a fault on
  instead of handling it, which Flask does when \<open>app.debug\<close> or \<open>app.testing\<close> is set
  (the module's own \<open>app.run(..., debug=True)\<close> sets the first, the test fixture the
  second).
\<close>

record world =
  utcnow :: datetime
  environ :: environ
  send_static_file :: "string \<Rightarrow> response option"
  propagate_exceptions :: bool

text \<open>
  A view function returns a response or raises. The views of the application, by
  endpoint: the three functions of the module, none of which has a statement that can
  raise, and the framework's view of the static folder.
\<close>

type_synonym view_table = "endpoint \<Rightarrow> world \<Rightarrow> request \<Rightarrow> py_exception + response"

definition view_functions :: view_table where
  "view_functions ep w req =
     (case ep of
        Health \<Rightarrow> Inr (health (utcnow w))
      | Info \<Rightarrow> Inr info
      | Hello \<Rightarrow> Inr (hello req)
      | Static filename \<Rightarrow>
          (case send_static_file w filename of
             Some resp \<Rightarrow> Inr resp
           | None \<Rightarrow> Inl NotFound))"

text \<open>
  \<open>handle_exception\<close>: a fault that no handler is registered for is handed on when
  exceptions propagate; otherwise Flask wraps it in an \<open>InternalServerError\<close> and calls
  the handler registered for 500 with the wrapper.

  \<open>handle_user_exception\<close>: an HTTP error goes to the handler registered for its code,
  \<open>NotFound\<close> to \<open>not_found\<close> and an \<open>InternalServerError\<close> raised as such to
  \<open>internal_error\<close>; any other exception goes to \<open>handle_exception\<close>.
\<close>

definition handle_exception :: "world \<Rightarrow> py_exception \<Rightarrow> py_exception + response" where
  "handle_exception w e =
     (if propagate_exceptions w then Inl e
      else Inr (internal_error (environ w) (InternalServerError (Some e))))"

definition handle_user_exception ::
    "world \<Rightarrow> request \<Rightarrow> py_exception \<Rightarrow> py_exception + response" where
  "handle_user_exception w req e =
     (case e of
        NotFound \<Rightarrow> Inr (not_found req e)
      | InternalServerError original_exception \<Rightarrow> Inr (internal_error (environ w) e)
      | Exception msg \<Rightarrow> handle_exception w e)"

text \<open>
  \<open>full_dispatch_request\<close> for any table of views: the rule is matched, the method
  checked, \<open>OPTIONS\<close> answered by the framework, and the view called; what the view or
  the router raises goes through \<open>handle_user_exception\<close>.
\<close>

definition full_dispatch_request :: "view_table \<Rightarrow> world \<Rightarrow> request \<Rightarrow> py_exception + response" where
  "full_dispatch_request views w req =
     (case match_rule (path req) of
        Some ep \<Rightarrow>
          if req_method req \<notin> set (rule_methods [''GET'']) then Inr method_not_allowed
          else if req_method req = ''OPTIONS'' then Inr default_options_response
          else (case views ep w req of
                  Inr resp \<Rightarrow> Inr resp
                | Inl e \<Rightarrow> handle_user_exception w req e)
      | None \<Rightarrow>
          (case match_rule (merge_slashes (path req)) of
             None \<Rightarrow> handle_user_exception w req NotFound
           | Some ep \<Rightarrow>
               if req_method req \<notin> set (rule_methods [''GET'']) then Inr method_not_allowed
               else Inr request_redirect))"

text \<open>The response to a \<open>HEAD\<close> request is sent without its body.\<close>

definition flask_wsgi_app :: "view_table \<Rightarrow> world \<Rightarrow> request \<Rightarrow> py_exception + response" where
  "flask_wsgi_app views w req =
     (case full_dispatch_request views w req of
        Inl e \<Rightarrow> Inl e
      | Inr resp \<Rightarrow> Inr (if req_method req = ''HEAD'' then resp\<lparr>data := Bytes []\<rparr> else resp))"

text \<open>
  The application itself. An exception that leaves a WSGI application is the server's
  to answer, with an error page of its own; the views of this application never raise
  anything but \<open>NotFound\<close>, so that case does not occur (lemma \<open>wsgi_app_answers\<close>).
\<close>

definition server_error_page :: response where
  "server_error_page = \<lparr>status_code = 500, data = Html ''500 Internal Server Error''\<rparr>"

definition wsgi_app :: "world \<Rightarrow> request \<Rightarrow> response" where
  "wsgi_app w req =
     (case flask_wsgi_app view_functions w req of
        Inr resp \<Rightarrow> resp
      | Inl e \<Rightarrow> server_error_page)"

text \<open>
  A running process answers one request after the other, each in the world of its
  moment. The process state is handed on unchanged, as no handler writes to it.
\<close>

definition step :: "process \<Rightarrow> world \<Rightarrow> request \<Rightarrow> process \<times> response" where
  "step p w req = (p, wsgi_app w req)"

fun serve :: "process \<Rightarrow> (world \<times> request) list \<Rightarrow> process \<times> response list" where
  "serve p [] = (p, [])"
| "serve p ((w, req) # evs) =
     (case step p w req of
        (p', resp) \<Rightarrow> (case serve p' evs of (p'', resps) \<Rightarrow> (p'', resp # resps)))"

section \<open>Auxiliary notions of the statements\<close>

text \<open>
  A world for examples: midnight of 1 January 2024, an empty environment, no static
  files, faults handled by the application. \<open>at_second s\<close> is the same world with the
  clock at second \<open>s\<close> of that minute.
\<close>

definition at_second :: "nat \<Rightarrow> world" where
  "at_second s =
     \<lparr>utcnow = \<lparr>year = 2024, month = 1, day = 1, hour = 0, minute = 0, second = s,
                 microsecond = 0\<rparr>,
      environ = Map.empty,
      send_static_file = (\<lambda>filename. None),
      propagate_exceptions = False\<rparr>"

definition get :: "string \<Rightarrow> (string \<times> string) list \<Rightarrow> request" where
  "get p a = \<lparr>req_method = ''GET'', path = p, args = a\<rparr>"

text \<open>A table of views that all raise the same fault.\<close>

definition raising :: "py_exception \<Rightarrow> view_table" where
  "raising e ep w req = Inl e"

text \<open>The number that a string of decimal digits denotes.\<close>

definition decimal_value :: "string \<Rightarrow> nat" where
  "decimal_value v = foldl (\<lambda>n c. 10 * n + digit_val c) 0 v"

text \<open>
  The numerals of \<open>int\<close>: groups of digits, joined by single underscores, after an
  optional sign.
\<close>

definition digit_group :: "string \<Rightarrow> bool" where
  "digit_group g = (g \<noteq> [] \<and> list_all is_digit g)"

fun underscored :: "string list \<Rightarrow> string" where
  "underscored [] = []"
| "underscored (g # gs) = g @ concat (map ((#) (CHR ''_'')) gs)"

definition signed :: "string \<Rightarrow> nat \<Rightarrow> int" where
  "signed sign n = (if sign = ''-'' then - int n else int n)"

text \<open>A character that no numeral contains: not whitespace, digit, sign or underscore.\<close>

definition foreign :: "char \<Rightarrow> bool" where
  "foreign c = (\<not> is_space c \<and> \<not> is_digit c \<and> c \<notin> set ''+-_'')"

text \<open>
  Reading a timestamp back: the fields of a string of one of the two ISO-8601 shapes,
  by their positions. A string without the fraction has the microsecond 0.
\<close>

definition field_at :: "nat \<Rightarrow> nat \<Rightarrow> string \<Rightarrow> nat" where
  "field_at i k s = decimal_value (take k (drop i s))"

definition fromisoformat :: "string \<Rightarrow> datetime option" where
  "fromisoformat s =
     (if is_iso8601 s then
        Some \<lparr>year = field_at 0 4 s, month = field_at 5 2 s, day = field_at 8 2 s,
              hour = field_at 11 2 s, minute = field_at 14 2 s, second = field_at 17 2 s,
              microsecond = field_at 20 6 s\<rparr>
      else None)"

section \<open>Lemmas on the Python values\<close>

subsection \<open>Parsing integers\<close>

lemma digit_not_space: "is_digit c \<Longrightarrow> \<not> is_space c"
  by (auto simp: is_digit_def is_space_def)

lemma scan_digits_append:
  "list_all is_digit g \<Longrightarrow> g \<noteq> [] \<or> b \<Longrightarrow>
   scan b n (g @ rest) = (if g = [] then scan b n rest
                          else scan True (foldl (\<lambda>n c. 10 * n + digit_val c) n g) rest)"
  by (induction g arbitrary: b n) auto

lemma scan_tail:
  "list_all digit_group gs \<Longrightarrow>
   scan True n (concat (map ((#) (CHR ''_'')) gs)) =
     Some (foldl (\<lambda>n c. 10 * n + digit_val c) n (concat gs))"
proof (induction gs arbitrary: n)
  case Nil
  then show ?case by simp
next
  case (Cons g gs)
  then have gs: "list_all digit_group gs" and "digit_group g"
    by simp_all
  then have g: "list_all is_digit g" "g \<noteq> []"
    by (simp_all add: digit_group_def)
  have "scan True n (concat (map ((#) (CHR ''_'')) (g # gs))) =
        scan False n (g @ concat (map ((#) (CHR ''_'')) gs))"
    by (simp add: is_digit_def)
  also have "\<dots> = scan True (foldl (\<lambda>n c. 10 * n + digit_val c) n g) (concat (map ((#) (CHR ''_'')) gs))"
    using g by (simp add: scan_digits_append)
  finally show ?case
    using Cons.IH [OF gs] by simp
qed

lemma scan_underscored:
  assumes "groups \<noteq> []" "list_all digit_group groups"
  shows "scan False 0 (underscored groups) = Some (decimal_value (concat groups))"
proof -
  obtain g gs where gr: "groups = g # gs" using assms(1) by (cases groups) auto
  have gs: "list_all digit_group gs" and "digit_group g"
    using assms(2) by (simp_all add: gr)
  then have g: "list_all is_digit g" "g \<noteq> []"
    by (simp_all add: digit_group_def)
  show ?thesis
    using g scan_tail [OF gs] by (simp add: gr scan_digits_append decimal_value_def)
qed

lemma filter_digit_tail:
  "list_all digit_group gs \<Longrightarrow> filter is_digit (concat (map ((#) (CHR ''_'')) gs)) = concat gs"
  by (induction gs) (auto simp: digit_group_def is_digit_def list_all_iff filter_id_conv)

lemma filter_digit_underscored:
  "list_all digit_group groups \<Longrightarrow> filter is_digit (underscored groups) = concat groups"
  by (cases groups) (auto simp: filter_digit_tail digit_group_def list_all_iff filter_id_conv)

lemma parse_digits_underscored:
  assumes "groups \<noteq> []" "list_all digit_group groups"
  shows "parse_digits lim (underscored groups) =
           (if over_cap lim (length (concat groups)) then Inl ValueError
            else Inr (decimal_value (concat groups)))"
  using assms by (simp add: parse_digits_def scan_underscored filter_digit_underscored)

lemma dropWhile_lead:
  "list_all P ws \<Longrightarrow> core \<noteq> [] \<Longrightarrow> \<not> P (hd core) \<Longrightarrow> dropWhile P (ws @ core) = core"
  by (cases core) (auto simp: list_all_iff dropWhile_append2)

lemma strip_padded:
  assumes "list_all is_space ws1" "list_all is_space ws2"
    and "core \<noteq> []" "\<not> is_space (hd core)" "\<not> is_space (last core)"
  shows "strip (ws1 @ core @ ws2) = core"
proof -
  have a: "dropWhile is_space (ws1 @ core @ ws2) = core @ ws2"
    using assms(1,3,4) dropWhile_lead [of is_space ws1 "core @ ws2"] by simp
  have "dropWhile is_space (rev ws2 @ rev core) = rev core"
    using assms(2,3,5) dropWhile_lead [of is_space "rev ws2" "rev core"]
    by (simp add: list_all_iff hd_rev)
  then show ?thesis
    by (simp add: strip_def a)
qed

lemma digit_group_ends: "digit_group g \<Longrightarrow> is_digit (hd g) \<and> is_digit (last g)"
  by (simp add: digit_group_def list_all_iff)

lemma underscored_ends:
  assumes "groups \<noteq> []" "list_all digit_group groups"
  shows "underscored groups \<noteq> []" "is_digit (hd (underscored groups))"
    "is_digit (last (underscored groups))"
proof -
  obtain g gs where gr: "groups = g # gs" using assms(1) by (cases groups) auto
  have g: "digit_group g" and gs: "list_all digit_group gs"
    using assms(2) by (simp_all add: gr)
  have ne: "g \<noteq> []" using g by (simp add: digit_group_def)
  show "underscored groups \<noteq> []" by (simp add: gr ne)
  show "is_digit (hd (underscored groups))"
    using digit_group_ends [OF g] by (simp add: gr ne)
  show "is_digit (last (underscored groups))"
  proof (cases gs rule: rev_cases)
    case Nil
    then show ?thesis using digit_group_ends [OF g] by (simp add: gr)
  next
    case (snoc hs h)
    then have h: "digit_group h" using gs by simp
    then have "h \<noteq> []" by (simp add: digit_group_def)
    then show ?thesis
      using digit_group_ends [OF h] by (simp add: gr snoc)
  qed
qed

lemma py_int_numeral:
  assumes "list_all is_space ws1" "list_all is_space ws2"
    and "sign \<in> {[], ''+'', ''-''}" "groups \<noteq> []" "list_all digit_group groups"
  shows "py_int lim (ws1 @ sign @ underscored groups @ ws2) =
           (if over_cap lim (length (concat groups)) then Inl ValueError
            else Inr (signed sign (decimal_value (concat groups))))"
proof -
  note u = underscored_ends [OF assms(4,5)]
  obtain d ds where body: "underscored groups = d # ds" using u(1) by (cases "underscored groups") auto
  have d: "is_digit d" using u(2) by (simp add: body)
  then have dsign: "d \<noteq> CHR ''-''" "d \<noteq> CHR ''+''" by (auto simp: is_digit_def)
  let ?core = "sign @ underscored groups"
  have c1: "?core \<noteq> []" using u(1) by simp
  have c2: "\<not> is_space (hd ?core)"
  proof (cases "sign = []")
    case True
    then show ?thesis using u(1,2) by (simp add: digit_not_space)
  next
    case False
    then show ?thesis using assms(3) by (auto simp: is_space_def)
  qed
  have c3: "\<not> is_space (last ?core)"
    using u(1,3) by (simp add: digit_not_space)
  have s: "strip (ws1 @ sign @ underscored groups @ ws2) = ?core"
    using strip_padded [OF assms(1,2) c1 c2 c3] by simp
  have p: "parse_digits lim (d # ds) =
           (if over_cap lim (length (concat groups)) then Inl ValueError
            else Inr (decimal_value (concat groups)))"
    using parse_digits_underscored [OF assms(4,5)] by (simp add: body)
  have s2: "strip (ws1 @ sign @ underscored groups @ ws2) = sign @ d # ds"
    using s by (simp add: body)
  from assms(3) consider "sign = []" | "sign = ''+''" | "sign = ''-''" by auto
  then show ?thesis
  proof cases
    case 1
    then show ?thesis
      unfolding py_int_def s2 using dsign p by (simp add: signed_def)
  next
    case 2
    then show ?thesis
      unfolding py_int_def s2 using p by (simp add: signed_def)
  next
    case 3
    then show ?thesis
      unfolding py_int_def s2 using p by (simp add: signed_def)
  qed
qed

lemma strip_decompose:
  "\<exists>ws1 ws2. list_all is_space ws1 \<and> list_all is_space ws2 \<and> v = ws1 @ strip v @ ws2"
proof -
  let ?a = "takeWhile is_space v"
  let ?r = "rev (dropWhile is_space v)"
  let ?b = "rev (takeWhile is_space ?r)"
  have "?r = takeWhile is_space ?r @ dropWhile is_space ?r"
    by simp
  then have "rev ?r = rev (dropWhile is_space ?r) @ ?b"
    by (metis rev_append)
  then have "dropWhile is_space v = strip v @ ?b"
    by (simp add: strip_def)
  then have "v = ?a @ strip v @ ?b"
    by (metis takeWhile_dropWhile_id)
  moreover have "list_all is_space ?a" "list_all is_space ?b"
    by (auto simp: list_all_iff dest: set_takeWhileD)
  ultimately show ?thesis by blast
qed

lemma scan_structure:
  "scan b n cs = Some m \<Longrightarrow>
   \<exists>g groups. list_all is_digit g \<and> (b \<or> g \<noteq> []) \<and> list_all digit_group groups \<and>
     cs = g @ concat (map ((#) (CHR ''_'')) groups) \<and>
     m = foldl (\<lambda>n c. 10 * n + digit_val c) n (g @ concat groups)"
proof (induction b n cs rule: scan.induct)
  case (1 prev n)
  then have "prev \<and> m = n" by (simp split: if_splits)
  then have "list_all is_digit [] \<and> (prev \<or> [] \<noteq> ([] :: string)) \<and> list_all digit_group [] \<and>
        [] = [] @ concat (map ((#) (CHR ''_'')) []) \<and>
        m = foldl (\<lambda>n c. 10 * n + digit_val c) n ([] @ concat [])"
    by simp
  then show ?case by blast
next
  case (2 prev n c cs)
  show ?case
  proof (cases "is_digit c")
    case True
    with "2.prems" have "scan True (10 * n + digit_val c) cs = Some m" by simp
    from "2.IH"(1) [OF True this] obtain g groups where
      h: "list_all is_digit g" "list_all digit_group groups"
         "cs = g @ concat (map ((#) (CHR ''_'')) groups)"
         "m = foldl (\<lambda>n c. 10 * n + digit_val c) (10 * n + digit_val c) (g @ concat groups)"
      by blast
    have "list_all is_digit (c # g) \<and> (prev \<or> c # g \<noteq> []) \<and> list_all digit_group groups \<and>
          c # cs = (c # g) @ concat (map ((#) (CHR ''_'')) groups) \<and>
          m = foldl (\<lambda>n c. 10 * n + digit_val c) n ((c # g) @ concat groups)"
      using True h by simp
    then show ?thesis by blast
  next
    case False
    with "2.prems" have u: "c = CHR ''_'' \<and> prev" and s: "scan False n cs = Some m"
      by (simp_all split: if_splits)
    from "2.IH"(2) [OF False u s] obtain g groups where
      h: "list_all is_digit g" "g \<noteq> []" "list_all digit_group groups"
         "cs = g @ concat (map ((#) (CHR ''_'')) groups)"
         "m = foldl (\<lambda>n c. 10 * n + digit_val c) n (g @ concat groups)"
      by blast
    have "list_all is_digit [] \<and> (prev \<or> [] \<noteq> ([] :: string)) \<and>
          list_all digit_group (g # groups) \<and>
          c # cs = [] @ concat (map ((#) (CHR ''_'')) (g # groups)) \<and>
          m = foldl (\<lambda>n c. 10 * n + digit_val c) n ([] @ concat (g # groups))"
      using u h by (simp add: digit_group_def)
    then show ?thesis by blast
  qed
qed

lemma parse_digits_structure:
  assumes "parse_digits lim cs = Inr m"
  shows "\<exists>groups. groups \<noteq> [] \<and> list_all digit_group groups \<and> cs = underscored groups \<and>
           \<not> over_cap lim (length (concat groups)) \<and> m = decimal_value (concat groups)"
proof -
  from assms have s: "scan False 0 cs = Some m"
    and c: "\<not> over_cap lim (length (filter is_digit cs))"
    by (auto simp: parse_digits_def split: option.splits if_splits)
  from scan_structure [OF s] obtain g groups where
    h: "list_all is_digit g" "g \<noteq> []" "list_all digit_group groups"
       "cs = g @ concat (map ((#) (CHR ''_'')) groups)"
       "m = foldl (\<lambda>n c. 10 * n + digit_val c) 0 (g @ concat groups)"
    by blast
  have dg: "list_all digit_group (g # groups)"
    using h by (simp add: digit_group_def)
  have u: "cs = underscored (g # groups)"
    using h by simp
  have "filter is_digit cs = concat (g # groups)"
    unfolding u by (rule filter_digit_underscored [OF dg])
  then have "g # groups \<noteq> [] \<and> list_all digit_group (g # groups) \<and>
        cs = underscored (g # groups) \<and> \<not> over_cap lim (length (concat (g # groups))) \<and>
        m = decimal_value (concat (g # groups))"
    using c dg u h(5) by (simp add: decimal_value_def)
  then show ?thesis by blast
qed

lemma py_int_structure:
  assumes "py_int lim v = Inr n"
  shows "\<exists>ws1 sign groups ws2.
           list_all is_space ws1 \<and> list_all is_space ws2 \<and> sign \<in> {[], ''+'', ''-''} \<and>
           groups \<noteq> [] \<and> list_all digit_group groups \<and>
           v = ws1 @ sign @ underscored groups @ ws2 \<and>
           \<not> over_cap lim (length (concat groups)) \<and>
           n = signed sign (decimal_value (concat groups))"
proof -
  obtain ws1 ws2 where w: "list_all is_space ws1" "list_all is_space ws2"
    and v: "v = ws1 @ strip v @ ws2"
    using strip_decompose by blast
  from assms obtain c cs where sc: "strip v = c # cs"
    by (cases "strip v") (auto simp: py_int_def)
  have "\<exists>sign groups. sign \<in> {[], ''+'', ''-''} \<and> groups \<noteq> [] \<and> list_all digit_group groups \<and>
          c # cs = sign @ underscored groups \<and> \<not> over_cap lim (length (concat groups)) \<and>
          n = signed sign (decimal_value (concat groups))"
  proof -
    consider "c = CHR ''-''" | "c = CHR ''+''" | "c \<noteq> CHR ''-''" "c \<noteq> CHR ''+''" by blast
    then show ?thesis
    proof cases
      case 1
      with assms sc obtain m where "parse_digits lim cs = Inr m" "n = - int m"
        by (auto simp: py_int_def split: sum.splits)
      with parse_digits_structure [of lim cs m] 1 obtain groups where
        "''-'' \<in> {[], ''+'', ''-''} \<and> groups \<noteq> [] \<and> list_all digit_group groups \<and>
         c # cs = ''-'' @ underscored groups \<and> \<not> over_cap lim (length (concat groups)) \<and>
         n = signed ''-'' (decimal_value (concat groups))"
        by (auto simp: signed_def)
      then show ?thesis by blast
    next
      case 2
      with assms sc obtain m where "parse_digits lim cs = Inr m" "n = int m"
        by (auto simp: py_int_def split: sum.splits)
      with parse_digits_structure [of lim cs m] 2 obtain groups where
        "''+'' \<in> {[], ''+'', ''-''} \<and> groups \<noteq> [] \<and> list_all digit_group groups \<and>
         c # cs = ''+'' @ underscored groups \<and> \<not> over_cap lim (length (concat groups)) \<and>
         n = signed ''+'' (decimal_value (concat groups))"
        by (auto simp: signed_def)
      then show ?thesis by blast
    next
      case 3
      with assms sc obtain m where "parse_digits lim (c # cs) = Inr m" "n = int m"
        by (auto simp: py_int_def split: sum.splits)
      with parse_digits_structure [of lim "c # cs" m] obtain groups where
        "[] \<in> {[], ''+'', ''-''} \<and> groups \<noteq> [] \<and> list_all digit_group groups \<and>
         c # cs = [] @ underscored groups \<and> \<not> over_cap lim (length (concat groups)) \<and>
         n = signed [] (decimal_value (concat groups))"
        by (auto simp: signed_def)
      then show ?thesis by blast
    qed
  qed
  then obtain sign groups where
    "sign \<in> {[], ''+'', ''-''}" "groups \<noteq> []" "list_all digit_group groups"
    "c # cs = sign @ underscored groups" "\<not> over_cap lim (length (concat groups))"
    "n = signed sign (decimal_value (concat groups))"
    by blast
  with w v sc have
    "list_all is_space ws1 \<and> list_all is_space ws2 \<and> sign \<in> {[], ''+'', ''-''} \<and>
     groups \<noteq> [] \<and> list_all digit_group groups \<and>
     v = ws1 @ sign @ underscored groups @ ws2 \<and>
     \<not> over_cap lim (length (concat groups)) \<and>
     n = signed sign (decimal_value (concat groups))"
    by simp
  then show ?thesis by blast
qed

lemma dropWhile_keeps: "c \<in> set xs \<Longrightarrow> \<not> P c \<Longrightarrow> c \<in> set (dropWhile P xs)"
  by (induction xs) auto

lemma strip_keeps: "c \<in> set s \<Longrightarrow> \<not> is_space c \<Longrightarrow> c \<in> set (strip s)"
  by (simp add: strip_def dropWhile_keeps)

lemma scan_foreign: "c \<in> set cs \<Longrightarrow> foreign c \<Longrightarrow> scan b n cs = None"
  by (induction cs arbitrary: b n) (auto simp: foreign_def)

lemma parse_digits_foreign: "c \<in> set cs \<Longrightarrow> foreign c \<Longrightarrow> parse_digits lim cs = Inl ValueError"
  by (simp add: parse_digits_def scan_foreign)

lemma py_int_foreign:
  assumes "c \<in> set s" "foreign c"
  shows "py_int lim s = Inl ValueError"
proof -
  have m: "c \<in> set (strip s)"
    using assms by (simp add: strip_keeps foreign_def)
  show ?thesis
  proof (cases "strip s")
    case Nil
    then show ?thesis by (simp add: py_int_def)
  next
    case (Cons d ds)
    have sign: "d = CHR ''-'' \<or> d = CHR ''+'' \<Longrightarrow> c \<in> set ds"
      using m assms(2) by (auto simp: Cons foreign_def)
    have "parse_digits lim (d # ds) = Inl ValueError"
      using m parse_digits_foreign [OF _ assms(2)] by (simp only: Cons)
    moreover have "d = CHR ''-'' \<or> d = CHR ''+'' \<Longrightarrow> parse_digits lim ds = Inl ValueError"
      using sign parse_digits_foreign [OF _ assms(2)] by blast
    ultimately show ?thesis
      by (auto simp: py_int_def Cons)
  qed
qed

lemma py_int_blank: "list_all is_space s \<Longrightarrow> py_int lim s = Inl ValueError"
proof -
  assume "list_all is_space s"
  then have "strip s = []"
    by (auto simp: strip_def list_all_iff dest: set_dropWhileD)
  then show ?thesis by (simp add: py_int_def)
qed

subsection \<open>Zero-padded numbers and their order as strings\<close>

lemma of_char_digit_char: "n < 10 \<Longrightarrow> of_char (digit_char n) = 48 + n"
  by (simp add: digit_char_def)

lemma digit_char_less: "a < 10 \<Longrightarrow> b < 10 \<Longrightarrow> (digit_char a < digit_char b) = (a < b)"
  by (simp add: less_char_def of_char_digit_char)

lemma digit_char_eq: "a < 10 \<Longrightarrow> b < 10 \<Longrightarrow> (digit_char a = digit_char b) = (a = b)"
  by (metis of_char_digit_char add_left_cancel)

lemma digit_char_0: "digit_char 0 = CHR ''0''"
  by code_simp

lemma is_digit_digit_char: "n < 10 \<Longrightarrow> is_digit (digit_char n)"
proof -
  assume "n < 10"
  then have "n \<in> set [0, 1, 2, 3, 4, 5, 6, 7, 8, 9]" by auto
  moreover have "list_all (\<lambda>n. is_digit (digit_char n)) [0, 1, 2, 3, 4, 5, 6, 7, 8, 9]"
    by code_simp
  ultimately show ?thesis
    unfolding list_all_iff by blast
qed

lemma decimal_small: "n < 10 \<Longrightarrow> decimal n = [digit_char n]"
  by (simp add: decimal.simps)

lemma decimal_large: "10 \<le> n \<Longrightarrow> decimal n = decimal (n div 10) @ [digit_char (n mod 10)]"
  by (subst decimal.simps) simp

lemma zpad_Suc:
  "0 < k \<Longrightarrow> zpad (Suc k) n = zpad k (n div 10) @ [digit_char (n mod 10)]"
proof (cases "n < 10")
  case True
  assume "0 < k"
  then obtain j where k: "k = Suc j" by (cases k) auto
  show ?thesis
    using True by (simp add: zpad_def decimal_small k digit_char_0 replicate_append_same)
next
  case False
  assume "0 < k"
  show ?thesis
    using False by (simp add: zpad_def decimal_large Suc_diff_le)
qed

lemma zpad_1: "n < 10 \<Longrightarrow> zpad (Suc 0) n = [digit_char n]"
  by (simp add: zpad_def decimal_small)

lemma length_zpad_Suc: "n < 10 ^ Suc k \<Longrightarrow> length (zpad (Suc k) n) = Suc k"
proof (induction k arbitrary: n)
  case 0
  then show ?case by (simp add: zpad_1)
next
  case (Suc k)
  from Suc.prems have "n div 10 < 10 ^ Suc k" by simp
  then show ?case
    by (simp add: zpad_Suc Suc.IH)
qed

lemma length_zpad: "0 < k \<Longrightarrow> n < 10 ^ k \<Longrightarrow> length (zpad k n) = k"
  by (cases k) (simp_all add: length_zpad_Suc)

lemma digits_zpad_Suc: "n < 10 ^ Suc k \<Longrightarrow> list_all is_digit (zpad (Suc k) n)"
proof (induction k arbitrary: n)
  case 0
  then show ?case by (simp add: zpad_1 is_digit_digit_char)
next
  case (Suc k)
  from Suc.prems have "n div 10 < 10 ^ Suc k" by simp
  then show ?case
    by (simp add: zpad_Suc Suc.IH is_digit_digit_char)
qed

lemma digits_zpad: "0 < k \<Longrightarrow> n < 10 ^ k \<Longrightarrow> list_all is_digit (zpad k n)"
  by (cases k) (simp_all add: digits_zpad_Suc)

lemma less_append_same_length:
  "length a = length b \<Longrightarrow> (a @ u < b @ v) = (a < b \<or> a = b \<and> u < v)"
  by (induction a b rule: list_induct2) auto

lemma le_append_same_length:
  "length a = length b \<Longrightarrow> (a @ u \<le> b @ v) = (a < b \<or> a = b \<and> u \<le> v)"
  by (induction a b rule: list_induct2) auto

lemma zpad_less_Suc:
  "n < m \<Longrightarrow> m < 10 ^ Suc k \<Longrightarrow> zpad (Suc k) n < zpad (Suc k) m"
proof (induction k arbitrary: n m)
  case 0
  then show ?case by (simp add: zpad_1 digit_char_less)
next
  case (Suc k)
  from Suc.prems have b: "m div 10 < 10 ^ Suc k" "n div 10 < 10 ^ Suc k" by simp_all
  have len: "length (zpad (Suc k) (n div 10)) = length (zpad (Suc k) (m div 10))"
    using b by (simp add: length_zpad_Suc)
  from Suc.prems(1) have "n div 10 < m div 10 \<or> (n div 10 = m div 10 \<and> n mod 10 < m mod 10)"
    by (metis div_le_mono le_neq_implies_less less_imp_le mod_div_decomp nat_add_left_cancel_less)
  then show ?case
  proof
    assume "n div 10 < m div 10"
    then have "zpad (Suc k) (n div 10) < zpad (Suc k) (m div 10)"
      using b Suc.IH by blast
    then show ?thesis
      by (simp add: zpad_Suc less_append_same_length [OF len])
  next
    assume "n div 10 = m div 10 \<and> n mod 10 < m mod 10"
    then show ?thesis
      by (simp add: zpad_Suc less_append_same_length digit_char_less)
  qed
qed

lemma zpad_less: "0 < k \<Longrightarrow> n < m \<Longrightarrow> m < 10 ^ k \<Longrightarrow> zpad k n < zpad k m"
  by (cases k) (simp_all add: zpad_less_Suc)

lemma zpad_less_iff:
  assumes "0 < k" "n < 10 ^ k" "m < 10 ^ k"
  shows "(zpad k n < zpad k m) = (n < m)"
proof
  assume "n < m" then show "zpad k n < zpad k m" using assms by (simp add: zpad_less)
next
  assume l: "zpad k n < zpad k m"
  show "n < m"
  proof (rule ccontr)
    assume "\<not> n < m"
    then have "m = n \<or> m < n" by auto
    then show False
    proof
      assume "m = n" with l show False by simp
    next
      assume "m < n"
      then have "zpad k m < zpad k n" using assms by (simp add: zpad_less)
      with l show False by simp
    qed
  qed
qed

lemma zpad_eq_iff:
  assumes "0 < k" "n < 10 ^ k" "m < 10 ^ k"
  shows "(zpad k n = zpad k m) = (n = m)"
proof
  assume e: "zpad k n = zpad k m"
  have "\<not> n < m" "\<not> m < n"
    using e zpad_less [OF assms(1) _ assms(3), of n] zpad_less [OF assms(1) _ assms(2), of m]
    by auto
  then show "n = m" by simp
qed simp

lemma field_le:
  assumes "0 < k" "n < 10 ^ k" "m < 10 ^ k"
  shows "(zpad k n @ u \<le> zpad k m @ v) = (n < m \<or> n = m \<and> u \<le> v)"
proof -
  have "length (zpad k n) = length (zpad k m)"
    using assms by (simp add: length_zpad)
  then show ?thesis
    by (simp add: le_append_same_length zpad_less_iff [OF assms] zpad_eq_iff [OF assms])
qed

lemma fraction_le:
  assumes "a \<le> b" "b < 1000000"
  shows "fraction a \<le> fraction b"
proof (cases "a = 0")
  case True
  then show ?thesis by (simp add: fraction_def)
next
  case False
  have "zpad 6 a @ [] \<le> zpad 6 b @ []"
    using assms by (subst field_le) auto
  with False assms show ?thesis by (simp add: fraction_def)
qed

lemma field_le_2: "n < 100 \<Longrightarrow> m < 100 \<Longrightarrow>
    (zpad 2 n @ u \<le> zpad 2 m @ v) = (n < m \<or> n = m \<and> u \<le> v)"
  by (rule field_le) simp_all

lemma field_le_4: "n < 10000 \<Longrightarrow> m < 10000 \<Longrightarrow>
    (zpad 4 n @ u \<le> zpad 4 m @ v) = (n < m \<or> n = m \<and> u \<le> v)"
  by (rule field_le) simp_all

lemma valid_datetime_bounds:
  assumes "valid_datetime d"
  shows "year d < 10000" "month d < 100" "day d < 100" "hour d < 100"
    "minute d < 100" "second d < 100" "microsecond d < 1000000"
  using assms by (auto simp: valid_datetime_def days_in_month_def split: if_splits)

lemma isoformat_mono:
  assumes "valid_datetime a" "valid_datetime b" "dt_le a b"
  shows "isoformat a \<le> isoformat b"
proof -
  note ba = valid_datetime_bounds [OF assms(1)]
  note bb = valid_datetime_bounds [OF assms(2)]
  have f: "microsecond a \<le> microsecond b \<Longrightarrow> fraction (microsecond a) \<le> fraction (microsecond b)"
    using bb by (simp add: fraction_le)
  have "isoformat a \<le> isoformat b \<longleftrightarrow>
        year a < year b \<or> year a = year b \<and>
        (month a < month b \<or> month a = month b \<and>
        (day a < day b \<or> day a = day b \<and>
        (hour a < hour b \<or> hour a = hour b \<and>
        (minute a < minute b \<or> minute a = minute b \<and>
        (second a < second b \<or> second a = second b \<and>
         fraction (microsecond a) \<le> fraction (microsecond b))))))"
    unfolding isoformat_def
    by (simp add: field_le_2 field_le_4 ba bb)
  moreover from assms(3) have
       "year a < year b \<or> year a = year b \<and>
        (month a < month b \<or> month a = month b \<and>
        (day a < day b \<or> day a = day b \<and>
        (hour a < hour b \<or> hour a = hour b \<and>
        (minute a < minute b \<or> minute a = minute b \<and>
        (second a < second b \<or> second a = second b \<and>
         microsecond a \<le> microsecond b)))))"
    by (auto simp: dt_le_def dt_key_def)
  ultimately show ?thesis using f by blast
qed

lemma matches_digits: "list_all is_digit s \<Longrightarrow> matches (replicate (length s) (CHR ''D'')) s"
  by (induction s) auto

lemma matches_append:
  "length p = length s \<Longrightarrow> matches (p @ q) (s @ t) = (matches p s \<and> matches q t)"
  by (induction p s rule: list_induct2) auto

lemma matches_field:
  assumes "0 < k" "n < 10 ^ k"
  shows "matches (replicate k (CHR ''D'') @ q) (zpad k n @ t) = matches q t"
proof -
  have l: "length (zpad k n) = k" using assms by (simp add: length_zpad)
  have "matches (replicate k (CHR ''D'')) (zpad k n)"
    using matches_digits [OF digits_zpad [OF assms]] by (simp add: l)
  then show ?thesis
    by (simp add: matches_append l)
qed

lemma replicate_246:
  "replicate 2 x = [x, x]" "replicate 4 x = [x, x, x, x]" "replicate 6 x = [x, x, x, x, x, x]"
  by (simp_all add: eval_nat_numeral)

lemma matches_field_2: "n < 100 \<Longrightarrow> matches (CHR ''D'' # CHR ''D'' # q) (zpad 2 n @ t) = matches q t"
  using matches_field [of 2 n q t] by (simp add: replicate_246 del: matches.simps)

lemma matches_field_4:
  "n < 10000 \<Longrightarrow> matches (CHR ''D'' # CHR ''D'' # CHR ''D'' # CHR ''D'' # q) (zpad 4 n @ t) = matches q t"
  using matches_field [of 4 n q t] by (simp add: replicate_246 del: matches.simps)

lemma matches_field_6:
  "n < 1000000 \<Longrightarrow>
   matches (CHR ''D'' # CHR ''D'' # CHR ''D'' # CHR ''D'' # CHR ''D'' # CHR ''D'' # q) (zpad 6 n @ t) = matches q t"
  using matches_field [of 6 n q t] by (simp add: replicate_246 del: matches.simps)

lemma isoformat_is_iso8601:
  assumes "valid_datetime d"
  shows "is_iso8601 (isoformat d)"
proof -
  note b = valid_datetime_bounds [OF assms]
  have 6: "matches ''DDDDDD'' (zpad 6 (microsecond d))"
    using matches_field_6 [OF b(7), of "[]" "[]"] by simp
  show ?thesis
    using 6 by (simp add: is_iso8601_def isoformat_def fraction_def matches_field_2 matches_field_4 b)
qed

subsection \<open>Reading a timestamp back\<close>

lemma digit_val_digit_char: "n < 10 \<Longrightarrow> digit_val (digit_char n) = n"
  by (simp add: digit_val_def of_char_digit_char)

lemma decimal_value_snoc: "decimal_value (cs @ [c]) = 10 * decimal_value cs + digit_val c"
  by (simp add: decimal_value_def)

lemma decimal_value_zpad_Suc: "n < 10 ^ Suc k \<Longrightarrow> decimal_value (zpad (Suc k) n) = n"
proof (induction k arbitrary: n)
  case 0
  then show ?case by (simp add: zpad_1 decimal_value_def digit_val_digit_char)
next
  case (Suc k)
  from Suc.prems have "n div 10 < 10 ^ Suc k" by simp
  then show ?case
    by (simp add: zpad_Suc decimal_value_snoc Suc.IH digit_val_digit_char)
qed

lemma decimal_value_zpad: "0 < k \<Longrightarrow> n < 10 ^ k \<Longrightarrow> decimal_value (zpad k n) = n"
  by (cases k) (simp_all add: decimal_value_zpad_Suc)

lemma list_of_length:
  "length s = 2 \<Longrightarrow> \<exists>a b. s = [a, b]"
  "length s = 4 \<Longrightarrow> \<exists>a b c d. s = [a, b, c, d]"
  "length s = 6 \<Longrightarrow> \<exists>a b c d e f. s = [a, b, c, d, e, f]"
  by (cases s; simp; cases "tl s"; simp; cases "tl (tl s)"; simp; cases "tl (tl (tl s))"; simp;
      cases "tl (tl (tl (tl s)))"; simp; cases "tl (tl (tl (tl (tl s))))"; simp)+

lemma fromisoformat_isoformat:
  assumes "valid_datetime d"
  shows "fromisoformat (isoformat d) = Some d"
proof -
  note b = valid_datetime_bounds [OF assms]
  have iso: "is_iso8601 (isoformat d)"
    by (rule isoformat_is_iso8601 [OF assms])
  have v: "decimal_value (zpad 4 (year d)) = year d" "decimal_value (zpad 2 (month d)) = month d"
    "decimal_value (zpad 2 (day d)) = day d" "decimal_value (zpad 2 (hour d)) = hour d"
    "decimal_value (zpad 2 (minute d)) = minute d" "decimal_value (zpad 2 (second d)) = second d"
    "decimal_value (zpad 6 (microsecond d)) = microsecond d"
    using b by (simp_all add: decimal_value_zpad)
  obtain y1 y2 y3 y4 where y: "zpad 4 (year d) = [y1, y2, y3, y4]"
    using list_of_length(2) [of "zpad 4 (year d)"] b by (auto simp: length_zpad)
  obtain m1 m2 where m: "zpad 2 (month d) = [m1, m2]"
    using list_of_length(1) [of "zpad 2 (month d)"] b by (auto simp: length_zpad)
  obtain d1 d2 where dd: "zpad 2 (day d) = [d1, d2]"
    using list_of_length(1) [of "zpad 2 (day d)"] b by (auto simp: length_zpad)
  obtain h1 h2 where h: "zpad 2 (hour d) = [h1, h2]"
    using list_of_length(1) [of "zpad 2 (hour d)"] b by (auto simp: length_zpad)
  obtain n1 n2 where n: "zpad 2 (minute d) = [n1, n2]"
    using list_of_length(1) [of "zpad 2 (minute d)"] b by (auto simp: length_zpad)
  obtain s1 s2 where s: "zpad 2 (second d) = [s1, s2]"
    using list_of_length(1) [of "zpad 2 (second d)"] b by (auto simp: length_zpad)
  obtain u1 u2 u3 u4 u5 u6 where u: "zpad 6 (microsecond d) = [u1, u2, u3, u4, u5, u6]"
    using list_of_length(3) [of "zpad 6 (microsecond d)"] b by (auto simp: length_zpad)
  have f: "field_at 0 4 (isoformat d) = year d" "field_at 5 2 (isoformat d) = month d"
    "field_at 8 2 (isoformat d) = day d" "field_at 11 2 (isoformat d) = hour d"
    "field_at 14 2 (isoformat d) = minute d" "field_at 17 2 (isoformat d) = second d"
    "field_at 20 6 (isoformat d) = microsecond d"
    using v unfolding isoformat_def fraction_def y m dd h n s u field_at_def
    by (simp_all add: decimal_value_def)
  show ?thesis
    using iso by (simp add: fromisoformat_def f)
qed

section \<open>Lemmas on routing and on a sequence of requests\<close>

lemma full_dispatch_answers:
  "\<exists>resp. full_dispatch_request view_functions w req = Inr resp"
  by (auto simp: full_dispatch_request_def view_functions_def handle_user_exception_def
      split: option.splits endpoint.splits)

lemma wsgi_app_answers: "flask_wsgi_app view_functions w req = Inr (wsgi_app w req)"
proof -
  obtain resp where "full_dispatch_request view_functions w req = Inr resp"
    using full_dispatch_answers by blast
  then show ?thesis
    by (simp add: wsgi_app_def flask_wsgi_app_def)
qed

lemma wsgi_app_eq:
  "full_dispatch_request view_functions w req = Inr resp \<Longrightarrow>
   wsgi_app w req = (if req_method req = ''HEAD'' then resp\<lparr>data := Bytes []\<rparr> else resp)"
  by (simp add: wsgi_app_def flask_wsgi_app_def)

lemma serve_eq: "serve p evs = (p, map (\<lambda>(w, req). wsgi_app w req) evs)"
  by (induction evs arbitrary: p) (auto simp: step_def)

lemma serve_last: "last (snd (serve p (hist @ [(w, req)]))) = wsgi_app w req"
  by (simp add: serve_eq)

lemma serve_nth:
  "snd (serve p (pre @ (w, req) # post)) ! length pre = wsgi_app w req"
  by (simp add: serve_eq nth_append)

lemma serve_last_Cons:
  "last (snd (serve p (pre @ (w1, req1) # mid @ [(w2, req2)]))) = wsgi_app w2 req2"
  by (simp add: serve_eq)

lemma wsgi_app_health:
  "req_method req = ''GET'' \<Longrightarrow> path req = ''/health'' \<Longrightarrow> wsgi_app w req = health (utcnow w)"
  by (simp add: wsgi_app_def flask_wsgi_app_def full_dispatch_request_def match_rule_def
      rule_methods_def view_functions_def)

lemma wsgi_app_info:
  "req_method req = ''GET'' \<Longrightarrow> path req = ''/api/info'' \<Longrightarrow> wsgi_app w req = info"
  by (simp add: wsgi_app_def flask_wsgi_app_def full_dispatch_request_def match_rule_def
      rule_methods_def view_functions_def)

lemma wsgi_app_hello:
  "req_method req = ''GET'' \<Longrightarrow> path req = ''/api/hello'' \<Longrightarrow> wsgi_app w req = hello req"
  by (simp add: wsgi_app_def flask_wsgi_app_def full_dispatch_request_def match_rule_def
      rule_methods_def view_functions_def)

lemma health_timestamp:
  "json_field (health now) ''timestamp'' = Some (JStr (isoformat now))"
  by (simp add: health_def json_field_def jsonify_def)

lemma valid_at_second: "s < 60 \<Longrightarrow> valid_datetime (utcnow (at_second s))"
  by (simp add: valid_datetime_def at_second_def days_in_month_def)

lemma dt_le_at_second: "a \<le> b \<Longrightarrow> dt_le (utcnow (at_second a)) (utcnow (at_second b))"
  by (auto simp: dt_le_def dt_key_def at_second_def)

lemma isoformat_at_second_7: "isoformat (utcnow (at_second 7)) = ''2024-01-01T00:00:07''"
  by code_simp

lemma isoformat_at_second_10: "isoformat (utcnow (at_second 10)) = ''2024-01-01T00:00:10''"
  by code_simp

lemma isoformat_at_second_30: "isoformat (utcnow (at_second 30)) = ''2024-01-01T00:00:30''"
  by code_simp

section \<open>The claims\<close>

subsection \<open>C1: the port at process start\<close>

text \<open>
  C1 says that the port is 3000 whenever \<open>PORT\<close> is unset or not numeric, and that
  resolving it never fails. The first half holds for the unset variable only: the value
  of a set variable goes to \<open>int\<close> as it is, and \<open>int\<close> raises \<open>ValueError\<close> on a string
  that is not a numeral; nothing catches it. As amended (C1): the port is 3000 when
  \<open>PORT\<close> is unset. When \<open>PORT\<close> is set, the port is \<open>int\<close> of its value: the start
  succeeds exactly for the values that consist of whitespace, a sign, groups of decimal
  digits joined by single underscores, and whitespace again (whitespace and sign may be
  missing) and that have no more digits than the interpreter converts, and the port is
  then the number written, with its sign. Every other value makes the start fail with
  \<open>ValueError\<close>, in particular an empty or blank one and one with a character that is
  neither whitespace, digit, sign nor underscore.
\<close>

theorem PORT_resolution:
  "(env ''PORT'' = None \<longrightarrow> start lim env = Inr \<lparr>port = 3000\<rparr>) \<and>
   (\<forall>ws1 sign groups ws2.
      env ''PORT'' = Some (ws1 @ sign @ underscored groups @ ws2) \<and>
      list_all is_space ws1 \<and> list_all is_space ws2 \<and> sign \<in> {[], ''+'', ''-''} \<and>
      groups \<noteq> [] \<and> list_all digit_group groups
      \<longrightarrow> start lim env =
            (if over_cap lim (length (concat groups)) then Inl ValueError
             else Inr \<lparr>port = signed sign (decimal_value (concat groups))\<rparr>)) \<and>
   (\<forall>v p. env ''PORT'' = Some v \<and> start lim env = Inr p
      \<longrightarrow> (\<exists>ws1 sign groups ws2.
             v = ws1 @ sign @ underscored groups @ ws2 \<and>
             list_all is_space ws1 \<and> list_all is_space ws2 \<and> sign \<in> {[], ''+'', ''-''} \<and>
             groups \<noteq> [] \<and> list_all digit_group groups \<and>
             \<not> over_cap lim (length (concat groups)) \<and>
             port p = signed sign (decimal_value (concat groups)))) \<and>
   (\<forall>e. start lim env = Inl e \<longrightarrow> e = ValueError) \<and>
   (\<forall>v. env ''PORT'' = Some v \<and> (list_all is_space v \<or> (\<exists>c \<in> set v. foreign c))
      \<longrightarrow> start lim env = Inl ValueError)"
proof (intro conjI allI impI)
  assume "env ''PORT'' = None"
  then show "start lim env = Inr \<lparr>port = 3000\<rparr>"
    by (simp add: start_def PORT_def)
next
  fix ws1 sign groups ws2
  assume "env ''PORT'' = Some (ws1 @ sign @ underscored groups @ ws2) \<and>
      list_all is_space ws1 \<and> list_all is_space ws2 \<and> sign \<in> {[], ''+'', ''-''} \<and>
      groups \<noteq> [] \<and> list_all digit_group groups"
  then show "start lim env =
            (if over_cap lim (length (concat groups)) then Inl ValueError
             else Inr \<lparr>port = signed sign (decimal_value (concat groups))\<rparr>)"
    by (simp add: start_def PORT_def py_int_numeral)
next
  fix v p
  assume a: "env ''PORT'' = Some v \<and> start lim env = Inr p"
  then obtain n where "py_int lim v = Inr n" "port p = n"
    by (auto simp: start_def PORT_def split: sum.splits)
  with py_int_structure [of lim v n]
  show "\<exists>ws1 sign groups ws2.
             v = ws1 @ sign @ underscored groups @ ws2 \<and>
             list_all is_space ws1 \<and> list_all is_space ws2 \<and> sign \<in> {[], ''+'', ''-''} \<and>
             groups \<noteq> [] \<and> list_all digit_group groups \<and>
             \<not> over_cap lim (length (concat groups)) \<and>
             port p = signed sign (decimal_value (concat groups))"
    by blast
next
  fix e
  assume "start lim env = Inl e"
  show "e = ValueError" by (cases e) simp
next
  fix v
  assume "env ''PORT'' = Some v \<and> (list_all is_space v \<or> (\<exists>c \<in> set v. foreign c))"
  then show "start lim env = Inl ValueError"
    by (auto simp: start_def PORT_def py_int_blank py_int_foreign)
qed

theorem PORT_resolution_witness:
  "start 4300 Map.empty = Inr \<lparr>port = 3000\<rparr> \<and>
   start 4300 [''PORT'' \<mapsto> ''8080''] = Inr \<lparr>port = 8080\<rparr> \<and>
   start 4300 [''PORT'' \<mapsto> [CHR 0xA0] @ ''-'' @ underscored [''0'', ''080''] @ [CHR 0x0A]] =
     Inr \<lparr>port = - 80\<rparr> \<and>
   start 4300 [''PORT'' \<mapsto> []] = Inl ValueError \<and>
   start 4300 [''PORT'' \<mapsto> ''abc''] = Inl ValueError"
  using PORT_resolution [of Map.empty 4300]
    PORT_resolution [of "[''PORT'' \<mapsto> ''8080'']" 4300, THEN conjunct2, THEN conjunct1,
      rule_format, of "[]" "[]" "[''8080'']" "[]"]
    PORT_resolution [of "[''PORT'' \<mapsto> [CHR 0xA0] @ ''-'' @ underscored [''0'', ''080''] @ [CHR 0x0A]]"
      4300, THEN conjunct2, THEN conjunct1, rule_format, of "[CHR 0xA0]" "''-''" "[''0'', ''080'']" "[CHR 0x0A]"]
    PORT_resolution [of "[''PORT'' \<mapsto> []]" 4300] PORT_resolution [of "[''PORT'' \<mapsto> ''abc'']" 4300]
  by (simp add: is_digit_def digit_group_def decimal_value_def digit_val_def foreign_def
      is_space_def over_cap_def signed_def)

text \<open>With \<open>PORT=abc\<close> the start fails; the port is not 3000.\<close>

theorem PORT_default_counterexample:
  "start 4300 [''PORT'' \<mapsto> ''abc''] = Inl ValueError \<and>
   start 4300 [''PORT'' \<mapsto> ''abc''] \<noteq> Inr \<lparr>port = 3000\<rparr>"
  by (simp add: start_def PORT_def py_int_def strip_def is_space_def is_digit_def
      parse_digits_def)

subsection \<open>C2: unmatched paths\<close>

text \<open>
  C2 says that every request whose path is not one of the three routes gets the 404
  response of \<open>not_found\<close>. The application has a fourth rule, the framework's
  \<open>/static/<path:filename>\<close>, and the router looks at the method once a rule matches
  the path; it also redirects a path that becomes a rule's path when its runs of
  slashes are merged. As amended (C2): when no rule matches the path, neither as it is
  nor with its runs of slashes merged, or when the path is under \<open>/static/\<close>, the method
  is \<open>GET\<close> or \<open>HEAD\<close> and there is no such static file, then \<open>not_found\<close> runs, the status
  is 404, and the body (which a \<open>HEAD\<close> response is sent without) has \<open>error\<close> equal to
  \<open>Not Found\<close> and \<open>path\<close> equal to the requested path.
\<close>

theorem not_found_response:
  assumes "(match_rule (path req) = None \<and> match_rule (merge_slashes (path req)) = None) \<or>
           (\<exists>filename. match_rule (path req) = Some (Static filename) \<and>
              req_method req \<in> {''GET'', ''HEAD''} \<and> send_static_file w filename = None)"
  shows "full_dispatch_request view_functions w req = Inr (not_found req NotFound) \<and>
         status_code (wsgi_app w req) = 404 \<and>
         (req_method req \<noteq> ''HEAD'' \<longrightarrow>
            data (wsgi_app w req) =
              Json [(''error'', JStr ''Not Found''), (''path'', JStr (path req))])"
proof -
  have d: "full_dispatch_request view_functions w req = Inr (not_found req NotFound)"
    using assms
    by (auto simp: full_dispatch_request_def rule_methods_def view_functions_def
        handle_user_exception_def)
  show ?thesis
    using d by (simp add: wsgi_app_eq [OF d] not_found_def jsonify_def)
qed

theorem not_found_response_witness:
  "status_code (wsgi_app (at_second 0) (get ''/unknown'' [])) = 404 \<and>
   data (wsgi_app (at_second 0) (get ''/unknown'' [])) =
     Json [(''error'', JStr ''Not Found''), (''path'', JStr ''/unknown'')] \<and>
   data (wsgi_app (at_second 0) (get ''/static/app.css'' [])) =
     Json [(''error'', JStr ''Not Found''), (''path'', JStr ''/static/app.css'')]"
  using not_found_response [of "get ''/unknown'' []" "at_second 0"]
    not_found_response [of "get ''/static/app.css'' []" "at_second 0"]
  by (simp add: get_def match_rule_def static_rule_def at_second_def)

text \<open>
  A \<open>POST\<close> to \<open>/static/app.css\<close>: the path is none of the three routes, and the answer
  is the framework's 405, not the 404 of \<open>not_found\<close>.
\<close>

theorem not_found_counterexample:
  "path \<lparr>req_method = ''POST'', path = ''/static/app.css'', args = []\<rparr>
     \<notin> {''/health'', ''/api/info'', ''/api/hello''} \<and>
   wsgi_app (at_second 0) \<lparr>req_method = ''POST'', path = ''/static/app.css'', args = []\<rparr> =
     \<lparr>status_code = 405, data = Html ''405 Method Not Allowed''\<rparr>"
  by (simp add: wsgi_app_def flask_wsgi_app_def full_dispatch_request_def match_rule_def
      static_rule_def rule_methods_def method_not_allowed_def)

subsection \<open>C3: the server-error handler\<close>

text \<open>
  C3 says that, when a view raises a fault, \<open>internal_error\<close> answers with status 500,
  \<open>error\<close> equal to \<open>Internal Server Error\<close>, and a \<open>message\<close> that is the description
  of the fault if \<open>DEBUG\<close> is set and a fixed string otherwise. The handler is written
  for that: its message is \<open>str(error)\<close> under \<open>DEBUG\<close>. But what Flask passes to a
  handler registered for 500 is not the fault: it is the \<open>InternalServerError\<close> made for
  it, which has the fault in \<open>original_exception\<close>, and \<open>str\<close> of it is the fixed text of
  that error. The theorem (C3) states what the code does for a fault \<open>Exception fault\<close>
  raised by the view of a matched rule, in an application that handles its faults: the
  message under \<open>DEBUG\<close> is the text of the wrapper, whatever \<open>fault\<close> is. (Where
  exceptions propagate, as under the module's own \<open>app.run(..., debug=True)\<close>, the handler
  is not called at all.)
\<close>

theorem internal_error_message:
  assumes "req_method req = ''GET''" "match_rule (path req) = Some ep"
    and "views ep w req = Inl (Exception fault)" "\<not> propagate_exceptions w"
  shows "flask_wsgi_app views w req =
           Inr \<lparr>status_code = 500,
                data = Json [(''error'', JStr ''Internal Server Error''),
                             (''message'',
                              JStr (if truthy (environ w ''DEBUG'')
                                    then str (InternalServerError (Some (Exception fault)))
                                    else ''An error occurred''))]\<rparr>"
  using assms
  by (simp add: flask_wsgi_app_def full_dispatch_request_def rule_methods_def
      handle_user_exception_def handle_exception_def internal_error_def jsonify_def)

text \<open>
  A view that raises \<open>Exception('boom')\<close>, with \<open>DEBUG=1\<close>: the message is the wrapper's
  text and not \<open>boom\<close>.
\<close>

theorem internal_error_message_witness:
  "flask_wsgi_app (raising (Exception ''boom''))
     ((at_second 0)\<lparr>environ := [''DEBUG'' \<mapsto> ''1'']\<rparr>) (get ''/health'' []) =
     Inr \<lparr>status_code = 500,
          data = Json [(''error'', JStr ''Internal Server Error''),
                       (''message'',
                        JStr ''500 Internal Server Error: The server encountered an internal error and was unable to complete your request. Either the server is overloaded or there is an error in the application.'')]\<rparr> \<and>
   str (Exception ''boom'') = ''boom''"
  using internal_error_message [of "get ''/health'' []" Health "raising (Exception ''boom'')"
      "(at_second 0)\<lparr>environ := [''DEBUG'' \<mapsto> ''1'']\<rparr>" "''boom''"]
  by (simp add: get_def match_rule_def raising_def at_second_def truthy_def)

subsection \<open>C4: the greeting\<close>

text \<open>
  C4: a \<open>GET\<close> request to \<open>/api/hello\<close> is answered with status 200 and the body
  \<open>{message: "Hello, X!"}\<close> when the query has the parameter \<open>name\<close> with the (decoded)
  value \<open>X\<close>, for any string \<open>X\<close>, and with \<open>{message: "Hello, World!"}\<close> when the query has
  no parameter \<open>name\<close>.
\<close>

theorem hello_response:
  assumes "req_method req = ''GET''" "path req = ''/api/hello''"
  shows "(\<forall>X. map_of (args req) ''name'' = Some X \<longrightarrow>
            wsgi_app w req =
              \<lparr>status_code = 200, data = Json [(''message'', JStr (''Hello, '' @ X @ ''!''))]\<rparr>) \<and>
         (''name'' \<notin> fst ` set (args req) \<longrightarrow>
            wsgi_app w req =
              \<lparr>status_code = 200, data = Json [(''message'', JStr ''Hello, World!'')]\<rparr>)"
proof -
  have "''name'' \<notin> fst ` set (args req) \<Longrightarrow> map_of (args req) ''name'' = None"
    by (simp add: map_of_eq_None_iff)
  then show ?thesis
    using assms by (auto simp: wsgi_app_hello hello_def args_get_def jsonify_def)
qed

theorem hello_response_witness:
  "wsgi_app (at_second 0) (get ''/api/hello'' [(''name'', ''CI/CD'')]) =
     \<lparr>status_code = 200, data = Json [(''message'', JStr ''Hello, CI/CD!'')]\<rparr> \<and>
   wsgi_app (at_second 0) (get ''/api/hello'' [(''name'', [])]) =
     \<lparr>status_code = 200, data = Json [(''message'', JStr ''Hello, !'')]\<rparr> \<and>
   wsgi_app (at_second 0) (get ''/api/hello'' []) =
     \<lparr>status_code = 200, data = Json [(''message'', JStr ''Hello, World!'')]\<rparr>"
  using hello_response [of "get ''/api/hello'' [(''name'', ''CI/CD'')]" "at_second 0"]
    hello_response [of "get ''/api/hello'' [(''name'', [])]" "at_second 0"]
    hello_response [of "get ''/api/hello'' []" "at_second 0"]
  by (simp add: get_def)

subsection \<open>C5: the static information\<close>

text \<open>
  C5: a \<open>GET\<close> request to \<open>/api/info\<close> is answered with status 200 and the one fixed
  object, whose \<open>description\<close> and \<open>language\<close> are not empty, whatever the process state,
  the requests served before, the clock and the environment are.
\<close>

theorem info_response:
  assumes "req_method req = ''GET''" "path req = ''/api/info''"
  shows "last (snd (serve p (hist @ [(w, req)]))) =
           \<lparr>status_code = 200,
            data = Json [(''name'', JStr ''Simple Python Example''),
                         (''version'', JStr ''1.0.0''),
                         (''description'', JStr ''Example project for CI/CD Toolkit''),
                         (''language'', JStr ''Python'')]\<rparr> \<and>
         ''Example project for CI/CD Toolkit'' \<noteq> [] \<and> ''Python'' \<noteq> []"
  using assms by (simp add: serve_last wsgi_app_info info_def jsonify_def)

theorem info_response_witness:
  "json_field (last (snd (serve \<lparr>port = 3000\<rparr>
      ([(at_second 0, get ''/api/hello'' [])] @ [(at_second 7, get ''/api/info'' [])]))))
     ''version'' = Some (JStr ''1.0.0'')"
  using info_response [of "get ''/api/info'' []" "\<lparr>port = 3000\<rparr>"
      "[(at_second 0, get ''/api/hello'' [])]" "at_second 7"]
  by (simp add: get_def json_field_def)

subsection \<open>C6: the health check\<close>

text \<open>
  C6: a \<open>GET\<close> request to \<open>/health\<close> is always answered, with status 200 and a body with
  \<open>status\<close> equal to \<open>OK\<close>, \<open>status_code\<close> equal to 200 and a \<open>timestamp\<close>. The timestamp
  is a string of ISO-8601 shape that, read back field by field, is the clock reading of
  this very call, whatever requests (to \<open>/health\<close> or not) were served before and whatever
  the clock read then: it is made anew for each call.
\<close>

theorem health_response:
  assumes "req_method req = ''GET''" "path req = ''/health''"
  shows "status_code (last (snd (serve p (hist @ [(w, req)])))) = 200 \<and>
         json_field (last (snd (serve p (hist @ [(w, req)])))) ''status'' = Some (JStr ''OK'') \<and>
         json_field (last (snd (serve p (hist @ [(w, req)])))) ''status_code'' = Some (JInt 200) \<and>
         (\<exists>ts. json_field (last (snd (serve p (hist @ [(w, req)])))) ''timestamp'' = Some (JStr ts) \<and>
               (valid_datetime (utcnow w) \<longrightarrow>
                  is_iso8601 ts \<and> fromisoformat ts = Some (utcnow w)))"
proof -
  have r: "last (snd (serve p (hist @ [(w, req)]))) = health (utcnow w)"
    using assms by (simp add: serve_last wsgi_app_health)
  have "status_code (health (utcnow w)) = 200"
    "json_field (health (utcnow w)) ''status'' = Some (JStr ''OK'')"
    "json_field (health (utcnow w)) ''status_code'' = Some (JInt 200)"
    by (simp_all add: health_def json_field_def jsonify_def)
  moreover have "valid_datetime (utcnow w) \<longrightarrow>
      is_iso8601 (isoformat (utcnow w)) \<and> fromisoformat (isoformat (utcnow w)) = Some (utcnow w)"
    by (simp add: isoformat_is_iso8601 fromisoformat_isoformat)
  ultimately show ?thesis
    unfolding r using health_timestamp [of "utcnow w"] by blast
qed

theorem health_response_witness:
  "json_field (last (snd (serve \<lparr>port = 3000\<rparr>
      ([(at_second 0, get ''/health'' [])] @ [(at_second 7, get ''/health'' [])]))))
     ''timestamp'' = Some (JStr ''2024-01-01T00:00:07'') \<and>
   is_iso8601 ''2024-01-01T00:00:07'' \<and>
   fromisoformat ''2024-01-01T00:00:07'' = Some (utcnow (at_second 7))"
proof -
  let ?r = "last (snd (serve \<lparr>port = 3000\<rparr>
      ([(at_second 0, get ''/health'' [])] @ [(at_second 7, get ''/health'' [])])))"
  have r: "json_field ?r ''timestamp'' = Some (JStr ''2024-01-01T00:00:07'')"
    by (simp add: serve_eq get_def wsgi_app_health health_timestamp isoformat_at_second_7)
  have g: "req_method (get ''/health'' []) = ''GET''" "path (get ''/health'' []) = ''/health''"
    by (simp_all add: get_def)
  have v: "valid_datetime (utcnow (at_second 7))"
    by (simp add: valid_at_second)
  from health_response [OF g, of "\<lparr>port = 3000\<rparr>" "[(at_second 0, get ''/health'' [])]"
      "at_second 7"] v
  obtain ts where "json_field ?r ''timestamp'' = Some (JStr ts)" "is_iso8601 ts"
    "fromisoformat ts = Some (utcnow (at_second 7))"
    by blast
  with r show ?thesis by simp
qed

subsection \<open>C7: repeated requests\<close>

text \<open>
  C7 says that repeated identical requests to \<open>/api/info\<close> and to \<open>/api/hello\<close> get
  identical bodies, and that of two calls to \<open>/health\<close> the later one never has the
  smaller timestamp. The timestamp is the reading of the system's wall clock, which the
  handler takes as it is; when the clock has been set back between two calls, the later
  timestamp is the smaller one. As amended (C7): the first half as claimed; and of two
  calls to \<open>/health\<close>, the later one has no smaller timestamp (as strings), provided that
  its clock reading is not before that of the earlier call.
\<close>

theorem repeated_requests:
  assumes "req_method req = ''GET''"
  shows "(path req = ''/api/info'' \<or> path req = ''/api/hello'' \<longrightarrow>
            data (snd (serve p (pre @ (w1, req) # mid @ [(w2, req)])) ! length pre) =
            data (last (snd (serve p (pre @ (w1, req) # mid @ [(w2, req)]))))) \<and>
         (path req = ''/health'' \<and> valid_datetime (utcnow w1) \<and> valid_datetime (utcnow w2) \<and>
          dt_le (utcnow w1) (utcnow w2) \<longrightarrow>
            (\<exists>t1 t2.
               json_field (snd (serve p (pre @ (w1, req) # mid @ [(w2, req)])) ! length pre)
                 ''timestamp'' = Some (JStr t1) \<and>
               json_field (last (snd (serve p (pre @ (w1, req) # mid @ [(w2, req)]))))
                 ''timestamp'' = Some (JStr t2) \<and>
               t1 \<le> t2))"
  using assms
  by (auto simp: serve_nth serve_last_Cons wsgi_app_info wsgi_app_hello wsgi_app_health
      health_timestamp isoformat_mono)

theorem repeated_requests_witness:
  "data (snd (serve \<lparr>port = 3000\<rparr>
      ([] @ (at_second 10, get ''/api/hello'' [(''name'', ''X'')]) # [] @
       [(at_second 30, get ''/api/hello'' [(''name'', ''X'')])])) ! length []) =
   data (last (snd (serve \<lparr>port = 3000\<rparr>
      ([] @ (at_second 10, get ''/api/hello'' [(''name'', ''X'')]) # [] @
       [(at_second 30, get ''/api/hello'' [(''name'', ''X'')])])))) \<and>
   (\<exists>t1 t2.
      json_field (snd (serve \<lparr>port = 3000\<rparr>
        ([] @ (at_second 10, get ''/health'' []) # [] @ [(at_second 30, get ''/health'' [])]))
        ! length []) ''timestamp'' = Some (JStr t1) \<and>
      json_field (last (snd (serve \<lparr>port = 3000\<rparr>
        ([] @ (at_second 10, get ''/health'' []) # [] @ [(at_second 30, get ''/health'' [])]))))
        ''timestamp'' = Some (JStr t2) \<and>
      t1 \<le> t2)"
  using repeated_requests [of "get ''/api/hello'' [(''name'', ''X'')]" "\<lparr>port = 3000\<rparr>" "[]"
      "at_second 10" "[]" "at_second 30"]
    repeated_requests [of "get ''/health'' []" "\<lparr>port = 3000\<rparr>" "[]"
      "at_second 10" "[]" "at_second 30"]
  by (simp add: get_def valid_at_second dt_le_at_second)

text \<open>
  Two calls to \<open>/health\<close>, the clock at second 30 for the first and at second 10 for the
  second: the second timestamp is the smaller one.
\<close>

theorem health_timestamp_counterexample:
  "snd (serve \<lparr>port = 3000\<rparr>
     [(at_second 30, get ''/health'' []), (at_second 10, get ''/health'' [])]) =
     [health (utcnow (at_second 30)), health (utcnow (at_second 10))] \<and>
   json_field (health (utcnow (at_second 30))) ''timestamp'' = Some (JStr ''2024-01-01T00:00:30'') \<and>
   json_field (health (utcnow (at_second 10))) ''timestamp'' = Some (JStr ''2024-01-01T00:00:10'') \<and>
   ''2024-01-01T00:00:10'' < ''2024-01-01T00:00:30''"
  by (simp add: serve_eq wsgi_app_health get_def health_timestamp
      isoformat_at_second_10 isoformat_at_second_30)

subsection \<open>C8: JSON bodies and status codes\<close>

text \<open>
  C8 says that every request is answered with a JSON body and one of the status codes
  200, 404 and 500. The routes are registered for \<open>GET\<close> only, and the framework itself
  answers a request with another method to a registered path, with 405 and an HTML page.
  As amended (C8): the claim holds for every request that one of the module's functions
  answers and that is not a \<open>HEAD\<close> request, that is, for a request of any method whose
  path matches no rule (also with its runs of slashes merged), for a \<open>GET\<close> request to
  one of the three routes, and for a \<open>GET\<close> request for a static file that does not
  exist; and it holds for every call of \<open>internal_error\<close>. The other requests are
  answered by the framework, not in JSON: with 405 and an HTML page for a method other
  than \<open>GET\<close>, \<open>HEAD\<close> and \<open>OPTIONS\<close> on a path that matches a rule, with 200 and an empty
  body for \<open>OPTIONS\<close> on such a path, with 308 or 405 and an HTML page for a path that
  matches a rule only after merging slashes, and without a body for \<open>HEAD\<close>.
\<close>

theorem response_kinds:
  "(req_method req \<noteq> ''HEAD'' \<and>
      ((match_rule (path req) = None \<and> match_rule (merge_slashes (path req)) = None) \<or>
       (req_method req = ''GET'' \<and>
          (path req \<in> {''/health'', ''/api/info'', ''/api/hello''} \<or>
           (\<exists>filename. match_rule (path req) = Some (Static filename) \<and>
                       send_static_file w filename = None))))
     \<longrightarrow> is_json (data (wsgi_app w req)) \<and> status_code (wsgi_app w req) \<in> {200, 404, 500}) \<and>
   ((\<exists>ep. match_rule (path req) = Some ep) \<and> req_method req \<notin> {''GET'', ''HEAD'', ''OPTIONS''}
     \<longrightarrow> wsgi_app w req = \<lparr>status_code = 405, data = Html ''405 Method Not Allowed''\<rparr>) \<and>
   ((\<exists>ep. match_rule (path req) = Some ep) \<and> req_method req = ''OPTIONS''
     \<longrightarrow> wsgi_app w req = \<lparr>status_code = 200, data = Bytes []\<rparr>) \<and>
   (match_rule (path req) = None \<and> (\<exists>ep. match_rule (merge_slashes (path req)) = Some ep)
     \<longrightarrow> status_code (wsgi_app w req) \<in> {308, 405} \<and> \<not> is_json (data (wsgi_app w req))) \<and>
   (req_method req = ''HEAD'' \<longrightarrow> data (wsgi_app w req) = Bytes []) \<and>
   is_json (data (internal_error env error)) \<and> status_code (internal_error env error) = 500"
proof (intro conjI impI)
  assume a: "req_method req \<noteq> ''HEAD'' \<and>
      ((match_rule (path req) = None \<and> match_rule (merge_slashes (path req)) = None) \<or>
       (req_method req = ''GET'' \<and>
          (path req \<in> {''/health'', ''/api/info'', ''/api/hello''} \<or>
           (\<exists>filename. match_rule (path req) = Some (Static filename) \<and>
                       send_static_file w filename = None))))"
  have h: "is_json (data (health now)) \<and> status_code (health now) = 200" for now
    by (simp add: health_def jsonify_def is_json_def)
  have i: "is_json (data info) \<and> status_code info = 200"
    by (simp add: info_def jsonify_def is_json_def)
  have g: "is_json (data (hello req)) \<and> status_code (hello req) = 200"
    by (simp add: hello_def jsonify_def is_json_def)
  have n: "is_json (data (not_found req NotFound)) \<and> status_code (not_found req NotFound) = 404"
    by (simp add: not_found_def jsonify_def is_json_def)
  have "full_dispatch_request view_functions w req
          \<in> Inr ` {health (utcnow w), info, hello req, not_found req NotFound}"
    using a
    by (auto simp: full_dispatch_request_def rule_methods_def view_functions_def
        handle_user_exception_def match_rule_def)
  then obtain resp where d: "full_dispatch_request view_functions w req = Inr resp"
    and "resp \<in> {health (utcnow w), info, hello req, not_found req NotFound}"
    by auto
  then have "is_json (data resp) \<and> status_code resp \<in> {200, 404, 500}"
    using h i g n by auto
  then show "is_json (data (wsgi_app w req))" "status_code (wsgi_app w req) \<in> {200, 404, 500}"
    using a by (simp_all add: wsgi_app_eq [OF d])
next
  assume "(\<exists>ep. match_rule (path req) = Some ep) \<and> req_method req \<notin> {''GET'', ''HEAD'', ''OPTIONS''}"
  then show "wsgi_app w req = \<lparr>status_code = 405, data = Html ''405 Method Not Allowed''\<rparr>"
    by (auto simp: wsgi_app_def flask_wsgi_app_def full_dispatch_request_def rule_methods_def
        method_not_allowed_def)
next
  assume "(\<exists>ep. match_rule (path req) = Some ep) \<and> req_method req = ''OPTIONS''"
  then show "wsgi_app w req = \<lparr>status_code = 200, data = Bytes []\<rparr>"
    by (auto simp: wsgi_app_def flask_wsgi_app_def full_dispatch_request_def rule_methods_def
        default_options_response_def)
next
  assume a: "match_rule (path req) = None \<and> (\<exists>ep. match_rule (merge_slashes (path req)) = Some ep)"
  then have "full_dispatch_request view_functions w req \<in> {Inr method_not_allowed, Inr request_redirect}"
    by (auto simp: full_dispatch_request_def)
  then have "wsgi_app w req \<in> {method_not_allowed, request_redirect,
      method_not_allowed\<lparr>data := Bytes []\<rparr>, request_redirect\<lparr>data := Bytes []\<rparr>}"
    by (auto simp: wsgi_app_def flask_wsgi_app_def)
  then show "status_code (wsgi_app w req) \<in> {308, 405}" "\<not> is_json (data (wsgi_app w req))"
    by (auto simp: method_not_allowed_def request_redirect_def is_json_def)
next
  assume a: "req_method req = ''HEAD''"
  obtain resp where d: "full_dispatch_request view_functions w req = Inr resp"
    using full_dispatch_answers by blast
  show "data (wsgi_app w req) = Bytes []"
    using a by (simp add: wsgi_app_eq [OF d])
next
  show "is_json (data (internal_error env error))" "status_code (internal_error env error) = 500"
    by (simp_all add: internal_error_def jsonify_def is_json_def)
qed

theorem response_kinds_witness:
  "is_json (data (wsgi_app (at_second 0) (get ''/api/info'' []))) \<and>
   status_code (wsgi_app (at_second 0) (get ''/api/info'' [])) \<in> {200, 404, 500} \<and>
   is_json (data (wsgi_app (at_second 0) \<lparr>req_method = ''POST'', path = ''/nowhere'', args = []\<rparr>)) \<and>
   status_code (wsgi_app (at_second 0) \<lparr>req_method = ''POST'', path = ''/nowhere'', args = []\<rparr>)
     \<in> {200, 404, 500} \<and>
   wsgi_app (at_second 0) \<lparr>req_method = ''DELETE'', path = ''/api/info'', args = []\<rparr> =
     \<lparr>status_code = 405, data = Html ''405 Method Not Allowed''\<rparr> \<and>
   wsgi_app (at_second 0) \<lparr>req_method = ''OPTIONS'', path = ''/api/info'', args = []\<rparr> =
     \<lparr>status_code = 200, data = Bytes []\<rparr> \<and>
   status_code (wsgi_app (at_second 0) (get ''/api///info'' [])) \<in> {308, 405} \<and>
   data (wsgi_app (at_second 0) \<lparr>req_method = ''HEAD'', path = ''/health'', args = []\<rparr>) = Bytes []"
  using response_kinds [of "get ''/api/info'' []" "at_second 0" Map.empty NotFound]
    response_kinds [of "\<lparr>req_method = ''POST'', path = ''/nowhere'', args = []\<rparr>" "at_second 0"
      Map.empty NotFound]
    response_kinds [of "\<lparr>req_method = ''DELETE'', path = ''/api/info'', args = []\<rparr>" "at_second 0"
      Map.empty NotFound]
    response_kinds [of "\<lparr>req_method = ''OPTIONS'', path = ''/api/info'', args = []\<rparr>" "at_second 0"
      Map.empty NotFound]
    response_kinds [of "get ''/api///info'' []" "at_second 0" Map.empty NotFound]
    response_kinds [of "\<lparr>req_method = ''HEAD'', path = ''/health'', args = []\<rparr>" "at_second 0"
      Map.empty NotFound]
  by (simp add: get_def match_rule_def static_rule_def)

text \<open>A \<open>POST\<close> to \<open>/health\<close> is answered with 405 and an HTML page.\<close>

theorem method_not_allowed_counterexample:
  "wsgi_app (at_second 0) \<lparr>req_method = ''POST'', path = ''/health'', args = []\<rparr> =
     \<lparr>status_code = 405, data = Html ''405 Method Not Allowed''\<rparr> \<and>
   \<not> is_json (Html ''405 Method Not Allowed'') \<and> (405 :: nat) \<notin> {200, 404, 500}"
  by (simp add: wsgi_app_def flask_wsgi_app_def full_dispatch_request_def match_rule_def
      rule_methods_def method_not_allowed_def is_json_def)

subsection \<open>C9: a repeated parameter\<close>

text \<open>
  C9: when the query of a \<open>GET\<close> request to \<open>/api/hello\<close> has the parameter \<open>name\<close> more
  than once, the message greets the first value; what follows the first \<open>name\<close> in the
  query has no effect.
\<close>

theorem hello_first_name:
  assumes "req_method req = ''GET''" "path req = ''/api/hello''"
    and "args req = pre @ (''name'', X) # post" "''name'' \<notin> fst ` set pre"
  shows "wsgi_app w req =
           \<lparr>status_code = 200, data = Json [(''message'', JStr (''Hello, '' @ X @ ''!''))]\<rparr>"
proof -
  have "map_of pre ''name'' = None"
    using assms(4) by (simp add: map_of_eq_None_iff)
  then have "map_of (args req) ''name'' = Some X"
    by (simp add: assms(3) map_add_def)
  then show ?thesis
    using assms(1,2) by (simp add: wsgi_app_hello hello_def args_get_def jsonify_def)
qed

theorem hello_first_name_witness:
  "wsgi_app (at_second 0)
     (get ''/api/hello'' ([(''lang'', ''en'')] @ (''name'', ''Ada'') # [(''name'', ''Bob'')])) =
     \<lparr>status_code = 200, data = Json [(''message'', JStr ''Hello, Ada!'')]\<rparr>"
  using hello_first_name [of "get ''/api/hello'' [(''lang'', ''en''), (''name'', ''Ada''), (''name'', ''Bob'')]"
      "[(''lang'', ''en'')]" "''Ada''" "[(''name'', ''Bob'')]" "at_second 0"]
  by (simp add: get_def)

subsection \<open>C10: \<open>info\<close> and \<open>hello\<close> depend on the request alone\<close>

text \<open>
  C10: the response to a \<open>GET\<close> request to \<open>/api/info\<close> or \<open>/api/hello\<close>, status code and
  body, is the same in any two runs: whatever the two process states, the two histories
  of requests served before, the two clocks and the two environments are.
\<close>

theorem info_hello_deterministic:
  assumes "req_method req = ''GET''" "path req = ''/api/info'' \<or> path req = ''/api/hello''"
  shows "last (snd (serve p1 (hist1 @ [(w1, req)]))) = last (snd (serve p2 (hist2 @ [(w2, req)])))"
  using assms by (auto simp: serve_last wsgi_app_info wsgi_app_hello)

theorem info_hello_deterministic_witness:
  "last (snd (serve \<lparr>port = 3000\<rparr>
     ([] @ [(at_second 0, get ''/api/hello'' [(''name'', ''Ada'')])]))) =
   last (snd (serve \<lparr>port = 8080\<rparr>
     ([(at_second 7, get ''/health'' [])] @
      [((at_second 10)\<lparr>environ := [''DEBUG'' \<mapsto> ''1'', ''PORT'' \<mapsto> ''8080'']\<rparr>,
        get ''/api/hello'' [(''name'', ''Ada'')])])))"
  using info_hello_deterministic [of "get ''/api/hello'' [(''name'', ''Ada'')]"
      "\<lparr>port = 3000\<rparr>" "[]" "at_second 0" "\<lparr>port = 8080\<rparr>" "[(at_second 7, get ''/health'' [])]"
      "(at_second 10)\<lparr>environ := [''DEBUG'' \<mapsto> ''1'', ''PORT'' \<mapsto> ''8080'']\<rparr>"]
  by (simp add: get_def)

end
